theory Spec2Isabelle
  imports Main "HOL-Library.Word" "HOL-Library.AList"
begin

section \<open>The sync engine (src/syncer/syncer.go)\<close>

subsection \<open>Data of the remote API and of the metadata collaborator\<close>

text \<open>
  Go's \<open>int64\<close> is a 64-bit word; \<open>+\<close> wraps and comparisons with zero read the word
  as a signed number.
\<close>

type_synonym int64 = "64 word"

definition positive :: "int64 \<Rightarrow> bool" where
  "positive x = (0 < sint x)"

text \<open>
  \<open>client.File\<close> and \<open>client.Change\<close>, restricted to the fields the syncer reads.
  \<open>File\<close> and \<open>Labels\<close> are pointers in Go and may be nil.
\<close>

record file_labels =
  Trashed :: bool

record parent_reference =
  parent_Id :: string

record drive_file =
  file_Id :: string
  Title :: string
  file_MimeType :: string
  file_FileSize :: int64
  file_Md5Checksum :: string
  Labels :: "file_labels option"
  Parents :: "parent_reference list"
  DownloadUrl :: string

record change =
  change_Id :: int64
  FileId :: string
  Deleted :: bool
  File :: "drive_file option"

record change_list =
  NextPageToken :: string
  Items :: "change list"

text \<open>\<open>metadata.CachedDriveFile\<close>; \<open>LastMod\<close> is a reading of the clock.\<close>

record cached_drive_file =
  cdf_Id :: string
  cdf_ParentId :: string
  cdf_Name :: string
  cdf_MimeType :: string
  cdf_FileSize :: int64
  cdf_Md5Checksum :: string
  cdf_LastMod :: nat

text \<open>
  The two constants of package \<open>metadata\<close> that the syncer uses. Their values are not
  part of the syncer, so they are parameters of the model.
\<close>

record metadata_consts =
  IdRootFolder :: string
  MimeTypeFolder :: string

text \<open>
  Modelled from the spec: \<open>CachedDriveFile.IsFolder\<close> of package \<open>metadata\<close> is not among the
  sources. The spec calls an entry a leaf when it is a non-folder item, and a folder-type
  entry one whose MIME type is the folder type.
\<close>

definition IsFolder :: "metadata_consts \<Rightarrow> cached_drive_file \<Rightarrow> bool" where
  "IsFolder K f = (cdf_MimeType f = MimeTypeFolder K)"

text \<open>
  A change request as built by \<open>mergeChanges\<close>: each setter of the request builder that
  was called leaves \<open>Some\<close> value, a setter that was not called leaves \<open>None\<close>.
\<close>

record changes_request =
  req_IncludeSubscribed :: "bool option"
  req_PageToken :: "string option"
  req_StartChangeId :: "int64 option"
  req_IncludeDeleted :: "bool option"

datatype error = RemoteError | MetaReadError | MetaSaveError | MetaDeleteError | NilPointerPanic

text \<open>Every call the syncer makes to one of its two collaborators, in the order made.\<close>

datatype event =
    FilesGet string
  | ChangesList changes_request
  | MetaSave string string cached_drive_file bool bool
  | MetaDelete string
  | MetaSaveLargestChangeId int64

text \<open>
  The collaborators' answers are parameters: what the remote service returns for the root
  file and for each change request, which metadata saves and deletes fail, and the clock.
\<close>

record env =
  remote_files_get :: "string \<Rightarrow> error + drive_file"
  remote_changes_list :: "changes_request \<Rightarrow> error + change_list"
  meta_save_fails :: "string \<Rightarrow> bool"
  meta_delete_fails :: "string \<Rightarrow> bool"
  now :: nat

text \<open>
  Modelled from the spec: the metadata collaborator (package \<open>metadata\<close>) is not among the
  sources. Its interface is \<open>getLargestChangeId\<close>, \<open>saveLargestChangeId\<close>, \<open>save\<close> and
  \<open>delete\<close>; the cursor is owned by it, read at the start of a pass and written after a
  page. The state keeps the persisted cursor (\<open>None\<close> when reading it fails) and the trace
  of calls.
\<close>

record state =
  cursor :: "int64 option"
  trace :: "event list"

definition GetLargestChangeId :: "state \<Rightarrow> int64 \<times> error option" where
  "GetLargestChangeId s = (case cursor s of None \<Rightarrow> (0, Some MetaReadError) | Some c \<Rightarrow> (c, None))"

definition SaveLargestChangeId :: "int64 \<Rightarrow> state \<Rightarrow> state" where
  "SaveLargestChangeId n s = s\<lparr>cursor := Some n, trace := trace s @ [MetaSaveLargestChangeId n]\<rparr>"

definition meta_Save ::
  "env \<Rightarrow> string \<Rightarrow> string \<Rightarrow> cached_drive_file \<Rightarrow> bool \<Rightarrow> bool \<Rightarrow> state \<Rightarrow> error option \<times> state" where
  "meta_Save E parentId fileId f isLeaf flag s =
     ((if meta_save_fails E fileId then Some MetaSaveError else None),
      s\<lparr>trace := trace s @ [MetaSave parentId fileId f isLeaf flag]\<rparr>)"

definition meta_Delete :: "env \<Rightarrow> string \<Rightarrow> state \<Rightarrow> error option \<times> state" where
  "meta_Delete E fileId s =
     ((if meta_delete_fails E fileId then Some MetaDeleteError else None),
      s\<lparr>trace := trace s @ [MetaDelete fileId]\<rparr>)"

subsection \<open>mergeChange\<close>

text \<open>
  Lines 145 to 149. The condition \<open>item.Deleted || item.File.Labels.Trashed\<close> reads the
  file only when \<open>Deleted\<close> is false, and a nil \<open>File\<close> or \<open>Labels\<close> panics there. In the
  delete branch the statement \<open>if d.metaService.Delete(item.FileId); err != nil\<close> calls
  \<open>Delete\<close> as the init statement and drops its result; the condition tests the named
  result \<open>err\<close>, which is still nil.
\<close>

definition delete_branch :: "env \<Rightarrow> change \<Rightarrow> state \<Rightarrow> error option \<times> state" where
  "delete_branch E item s =
     (let (dropped, s') = meta_Delete E (FileId item) s;
          err = None
      in if err \<noteq> None then (err, s') else (err, s'))"

text \<open>Lines 151 to 174, for a file \<open>f = item.File\<close> that is neither deleted nor trashed.\<close>

definition resolve_parent :: "metadata_consts \<Rightarrow> string \<Rightarrow> drive_file \<Rightarrow> string" where
  "resolve_parent K rootId f =
     (let parentId = (case Parents f of [] \<Rightarrow> [] | p # ps \<Rightarrow> parent_Id p)
      in if parentId = rootId then IdRootFolder K else parentId)"

definition save_branch ::
  "metadata_consts \<Rightarrow> env \<Rightarrow> string \<Rightarrow> change \<Rightarrow> drive_file \<Rightarrow> state \<Rightarrow> error option \<times> state" where
  "save_branch K E rootId item f s =
     (if DownloadUrl f = [] \<and> file_MimeType f \<noteq> MimeTypeFolder K then (None, s)
      else
        let fileId = FileId item;
            parentId = resolve_parent K rootId f;
            metadata = \<lparr>cdf_Id = FileId item, cdf_ParentId = parentId, cdf_Name = Title f,
                        cdf_MimeType = file_MimeType f, cdf_FileSize = file_FileSize f,
                        cdf_Md5Checksum = file_Md5Checksum f, cdf_LastMod = now E\<rparr>
        in meta_Save E parentId fileId metadata (\<not> IsFolder K metadata) False s)"

definition mergeChange ::
  "metadata_consts \<Rightarrow> env \<Rightarrow> string \<Rightarrow> change \<Rightarrow> state \<Rightarrow> error option \<times> state" where
  "mergeChange K E rootId item s =
     (if Deleted item then delete_branch E item s
      else case File item of
        None \<Rightarrow> (Some NilPointerPanic, s)
      | Some f \<Rightarrow>
         (case Labels f of
            None \<Rightarrow> (Some NilPointerPanic, s)
          | Some l \<Rightarrow>
             if Trashed l then delete_branch E item s
             else save_branch K E rootId item f s))"

subsection \<open>mergeChanges\<close>

definition build_request :: "bool \<Rightarrow> int64 \<Rightarrow> string \<Rightarrow> changes_request" where
  "build_request isInitialSync startChangeId pageToken =
     (let req0 = \<lparr>req_IncludeSubscribed = Some False, req_PageToken = None,
                  req_StartChangeId = None, req_IncludeDeleted = None\<rparr>;
          req1 = (if pageToken \<noteq> [] then req0\<lparr>req_PageToken := Some pageToken\<rparr>
                  else if positive startChangeId then req0\<lparr>req_StartChangeId := Some startChangeId\<rparr>
                  else req0)
      in if isInitialSync then req1\<lparr>req_IncludeDeleted := Some False\<rparr> else req1)"

text \<open>
  The loop of lines 131 to 136: the items in feed order; the first error ends the loop;
  after each merged item \<open>largestId\<close> is set to that item's change id.
\<close>

fun merge_items ::
  "metadata_consts \<Rightarrow> env \<Rightarrow> string \<Rightarrow> change list \<Rightarrow> int64 \<Rightarrow> state \<Rightarrow> error option \<times> int64 \<times> state" where
  "merge_items K E rootId [] largestId s = (None, largestId, s)"
| "merge_items K E rootId (item # items) largestId s =
     (case mergeChange K E rootId item s of
        (Some e, s') \<Rightarrow> (Some e, largestId, s')
      | (None, s') \<Rightarrow> merge_items K E rootId items (change_Id item) s')"

definition mergeChanges ::
  "metadata_consts \<Rightarrow> env \<Rightarrow> bool \<Rightarrow> string \<Rightarrow> int64 \<Rightarrow> string \<Rightarrow> state \<Rightarrow> string \<times> error option \<times> state" where
  "mergeChanges K E isInitialSync rootId startChangeId pageToken s =
     (let req = build_request isInitialSync startChangeId pageToken;
          s1 = s\<lparr>trace := trace s @ [ChangesList req]\<rparr>
      in case remote_changes_list E req of
           Inl e \<Rightarrow> ([], Some e, s1)
         | Inr changes \<Rightarrow>
            (case merge_items K E rootId (Items changes) 0 s1 of
               (Some e, largestId, s2) \<Rightarrow> (NextPageToken changes, Some e, s2)
             | (None, largestId, s2) \<Rightarrow>
                 (NextPageToken changes, None,
                  if positive largestId then SaveLargestChangeId largestId s2 else s2)))"

subsection \<open>syncInbound\<close>

text \<open>Lines 72 to 79: the resume point and the initial-sync flag.\<close>

definition resume_point :: "bool \<Rightarrow> state \<Rightarrow> int64" where
  "resume_point isForce s =
     (let (largestChangeId, err) = GetLargestChangeId s
      in if isForce \<or> err \<noteq> None then 0 else largestChangeId + 1)"

text \<open>
  The loop of lines 101 to 106 runs for as long as the remote service returns a next page
  token, which may be forever. The model counts pages: the first component is \<open>Some err\<close>
  when the loop has returned \<open>err\<close>, and \<open>None\<close> when it is still running after the given
  number of pages; the state is the one reached in either case.
\<close>

fun sync_pages ::
  "nat \<Rightarrow> metadata_consts \<Rightarrow> env \<Rightarrow> bool \<Rightarrow> string \<Rightarrow> int64 \<Rightarrow> string \<Rightarrow> state \<Rightarrow> error option option \<times> state" where
  "sync_pages 0 K E isInitialSync rootId startChangeId pageToken s = (None, s)"
| "sync_pages (Suc n) K E isInitialSync rootId startChangeId pageToken s =
     (case mergeChanges K E isInitialSync rootId startChangeId pageToken s of
        (nextPageToken, err, s') \<Rightarrow>
          if err \<noteq> None \<or> nextPageToken = [] then (Some err, s')
          else sync_pages n K E isInitialSync rootId startChangeId nextPageToken s')"

definition root_record :: "metadata_consts \<Rightarrow> env \<Rightarrow> drive_file \<Rightarrow> cached_drive_file" where
  "root_record K E rootFile =
     \<lparr>cdf_Id = IdRootFolder K, cdf_ParentId = [], cdf_Name = Title rootFile,
      cdf_MimeType = file_MimeType rootFile, cdf_FileSize = file_FileSize rootFile,
      cdf_Md5Checksum = file_Md5Checksum rootFile, cdf_LastMod = now E\<rparr>"

definition syncInbound ::
  "nat \<Rightarrow> metadata_consts \<Rightarrow> env \<Rightarrow> bool \<Rightarrow> state \<Rightarrow> error option option \<times> state" where
  "syncInbound fuel K E isForce s =
     (let largestChangeId = resume_point isForce s;
          isInitialSync = (largestChangeId = 0);
          s0 = s\<lparr>trace := trace s @ [FilesGet (IdRootFolder K)]\<rparr>
      in case remote_files_get E (IdRootFolder K) of
           Inl e \<Rightarrow> (Some (Some e), s0)
         | Inr rootFile \<Rightarrow>
            (case meta_Save E [] (IdRootFolder K) (root_record K E rootFile) False False s0 of
               (Some e, s1) \<Rightarrow> (Some (Some e), s1)
             | (None, s1) \<Rightarrow>
                 sync_pages fuel K E isInitialSync (file_Id rootFile) largestChangeId [] s1))"

text \<open>
  \<open>Sync\<close> (lines 53 to 64) takes the lock, runs \<open>syncInbound\<close>, logs its error and returns
  it; passes do not overlap, so a pass is \<open>syncInbound\<close> run on the state the pass before it
  left. \<open>Start\<close> repeats \<open>Sync(false)\<close> every thirty seconds on a goroutine of its own, and
  \<open>syncOutbound\<close> panics; neither is modelled.
\<close>

definition Sync ::
  "nat \<Rightarrow> metadata_consts \<Rightarrow> env \<Rightarrow> bool \<Rightarrow> state \<Rightarrow> error option option \<times> state" where
  "Sync fuel K E isForce s = syncInbound fuel K E isForce s"



subsection \<open>The remote change feed\<close>









subsection \<open>The parent id of a saved item, in the words of the spec\<close>

text \<open>
  The first listed parent if there is one, else the empty string; the sentinel root id in
  its place when it equals the remote root id. \<open>saved_for\<close> says that an event is the save
  of a change item under this parent id, and \<open>from_feed\<close> that it is so for an item of some
  page that the remote service delivers.
\<close>

definition expected_parent :: "metadata_consts \<Rightarrow> string \<Rightarrow> drive_file \<Rightarrow> string" where
  "expected_parent K rootId f =
     (let first = (case Parents f of [] \<Rightarrow> [] | r # rs \<Rightarrow> parent_Id r)
      in if first = rootId then IdRootFolder K else first)"

definition saved_for :: "metadata_consts \<Rightarrow> string \<Rightarrow> change \<Rightarrow> event \<Rightarrow> bool" where
  "saved_for K rootId item ev =
     (case ev of
        MetaSave p fid m leaf flag \<Rightarrow>
          (case File item of
             None \<Rightarrow> False
           | Some f \<Rightarrow> p = expected_parent K rootId f \<and> fid = FileId item \<and> cdf_ParentId m = p)
      | _ \<Rightarrow> False)"

definition from_feed :: "metadata_consts \<Rightarrow> env \<Rightarrow> string \<Rightarrow> event \<Rightarrow> bool" where
  "from_feed K E rootId ev =
     (\<exists>req page item. remote_changes_list E req = Inr page \<and> item \<in> set (Items page)
         \<and> saved_for K rootId item ev)"

section \<open>The blob store (src/blob/blob.go)\<close>

subsection \<open>The file system under the blob root\<close>

type_synonym bytes = "8 word list"

datatype os_error = ErrNotExist | ErrDenied | ErrEOF | RuntimePanic

text \<open>
  The directories under \<open>blobPath\<close>, each named by the path element that \<open>getBlobDir\<close>
  joins to \<open>blobPath\<close>, and the regular files in each, by name. \<open>path.Join\<close> of a directory
  and a file name is the pair of the two: this is the file meant as long as neither the id
  nor the checksum contains the path separator, which the theorems below assume.
  The five lists say which calls the operating system refuses: listing a directory,
  removing a file, creating a directory, opening a file for writing, writing to a file.
\<close>

record filesystem =
  dirs :: "(string \<times> (string \<times> bytes) list) list"
  readdir_denied :: "string list"
  remove_denied :: "(string \<times> string) list"
  mkdir_denied :: "string list"
  open_denied :: "(string \<times> string) list"
  write_denied :: "(string \<times> string) list"

definition single_segment :: "string \<Rightarrow> bool" where
  "single_segment s = (CHR ''/'' \<notin> set s)"

text \<open>
  \<open>ioutil.ReadDir\<close>: the names of the entries, or an error when the directory is missing
  or the operating system refuses to list it.
  Go returns them sorted by name; the model returns them as stored. The loop over them in
  \<open>cleanup\<close> decides on each entry by its name alone and removes only that entry, so the
  files left are the same in any order.
\<close>

definition ReadDir :: "filesystem \<Rightarrow> string \<Rightarrow> os_error + string list" where
  "ReadDir fs d =
     (case map_of (dirs fs) d of
        None \<Rightarrow> Inl ErrNotExist
      | Some es \<Rightarrow> if d \<in> set (readdir_denied fs) then Inl ErrDenied else Inr (map fst es))"

definition os_Remove :: "filesystem \<Rightarrow> string \<Rightarrow> string \<Rightarrow> os_error option \<times> filesystem" where
  "os_Remove fs d n =
     (case map_of (dirs fs) d of
        None \<Rightarrow> (Some ErrNotExist, fs)
      | Some es \<Rightarrow>
          if map_of es n = None then (Some ErrNotExist, fs)
          else if (d, n) \<in> set (remove_denied fs) then (Some ErrDenied, fs)
          else (None, fs\<lparr>dirs := AList.update d (AList.delete n es) (dirs fs)\<rparr>))"

definition os_MkdirAll :: "filesystem \<Rightarrow> string \<Rightarrow> os_error option \<times> filesystem" where
  "os_MkdirAll fs d =
     (if map_of (dirs fs) d \<noteq> None then (None, fs)
      else if d \<in> set (mkdir_denied fs) then (Some ErrDenied, fs)
      else (None, fs\<lparr>dirs := AList.update d [] (dirs fs)\<rparr>))"

text \<open>\<open>os.OpenFile\<close> with \<open>O_CREATE|O_RDWR\<close>: a missing file is created empty, an existing one is
  opened as it is (there is no \<open>O_TRUNC\<close>).\<close>

definition os_OpenFile :: "filesystem \<Rightarrow> string \<Rightarrow> string \<Rightarrow> os_error option \<times> filesystem" where
  "os_OpenFile fs d n =
     (if (d, n) \<in> set (open_denied fs) then (Some ErrDenied, fs)
      else case map_of (dirs fs) d of
        None \<Rightarrow> (Some ErrNotExist, fs)
      | Some es \<Rightarrow>
          if map_of es n \<noteq> None then (None, fs)
          else (None, fs\<lparr>dirs := AList.update d (AList.update n [] es) (dirs fs)\<rparr>))"

definition os_Open :: "filesystem \<Rightarrow> string \<Rightarrow> string \<Rightarrow> os_error + bytes" where
  "os_Open fs d n =
     (case map_of (dirs fs) d of
        None \<Rightarrow> Inl ErrNotExist
      | Some es \<Rightarrow> (case map_of es n of None \<Rightarrow> Inl ErrNotExist | Some c \<Rightarrow> Inr c))"

text \<open>The content of the file of a name in a directory, if there is one.\<close>

definition file_at :: "filesystem \<Rightarrow> string \<Rightarrow> string \<Rightarrow> bytes option" where
  "file_at fs d n = (case map_of (dirs fs) d of None \<Rightarrow> None | Some es \<Rightarrow> map_of es n)"

text \<open>
  What the file holds after the bytes \<open>written\<close> have been written to it from offset 0 on:
  the old content beyond them stays.
\<close>

definition write_from_start :: "filesystem \<Rightarrow> string \<Rightarrow> string \<Rightarrow> bytes \<Rightarrow> filesystem" where
  "write_from_start fs d n written =
     (case map_of (dirs fs) d of
        None \<Rightarrow> fs
      | Some es \<Rightarrow>
         (case map_of es n of
            None \<Rightarrow> fs
          | Some old \<Rightarrow>
              fs\<lparr>dirs := AList.update d (AList.update n (written @ drop (length written) old) es) (dirs fs)\<rparr>))"

subsection \<open>Names and paths\<close>

text \<open>Line 103 slices \<open>id[l-2:l]\<close>, which panics for an id shorter than two bytes.\<close>

definition getBlobDir :: "string \<Rightarrow> string option" where
  "getBlobDir bid = (let l = length bid in if l < 2 then None else Some (drop (l - 2) bid))"

definition getBlobName :: "string \<Rightarrow> string \<Rightarrow> string" where
  "getBlobName bid checksum = bid @ ''=='' @ checksum"

definition getBlobPath :: "string \<Rightarrow> string \<Rightarrow> (string \<times> string) option" where
  "getBlobPath bid checksum =
     (case getBlobDir bid of None \<Rightarrow> None | Some d \<Rightarrow> Some (d, getBlobName bid checksum))"

subsection \<open>cleanup and Delete\<close>

fun HasPrefix :: "string \<Rightarrow> string \<Rightarrow> bool" where
  "HasPrefix s [] = True"
| "HasPrefix [] (p # ps) = False"
| "HasPrefix (c # s) (p # ps) = (c = p \<and> HasPrefix s ps)"

text \<open>\<open>strings.Contains\<close>.\<close>

fun Contains :: "string \<Rightarrow> string \<Rightarrow> bool" where
  "Contains [] substr = (substr = [])"
| "Contains (c # s) substr = (HasPrefix (c # s) substr \<or> Contains s substr)"

text \<open>The loop of lines 88 to 97; a removal that fails is logged and the loop goes on.\<close>

fun remove_stale :: "filesystem \<Rightarrow> string \<Rightarrow> string \<Rightarrow> string \<Rightarrow> string list \<Rightarrow> filesystem" where
  "remove_stale fs d keep pat [] = fs"
| "remove_stale fs d keep pat (name # names) =
     remove_stale
       (if name \<noteq> keep \<and> Contains name pat then snd (os_Remove fs d name) else fs)
       d keep pat names"

definition cleanup :: "filesystem \<Rightarrow> string \<Rightarrow> string \<Rightarrow> os_error option \<times> filesystem" where
  "cleanup fs bid checksum =
     (case getBlobDir bid of
        None \<Rightarrow> (Some RuntimePanic, fs)
      | Some d \<Rightarrow>
         (case ReadDir fs d of
            Inl e \<Rightarrow> (Some e, fs)
          | Inr blobs \<Rightarrow>
              (None, remove_stale fs d (getBlobName bid checksum) (getBlobName bid []) blobs)))"

definition Delete :: "filesystem \<Rightarrow> string \<Rightarrow> os_error option \<times> filesystem" where
  "Delete fs bid = cleanup fs bid ''*''"

subsection \<open>Save\<close>

text \<open>
  The content reader \<open>rc\<close>: what each call of its \<open>Read\<close> hands out, the data together with
  the error of that call (nil, \<open>io.EOF\<close>, or another error). A call with a slice of \<open>cap\<close>
  bytes takes at most \<open>cap\<close> bytes; the rest stays for the next call. Once the list is used
  up every call returns no data and \<open>io.EOF\<close>. The \<open>bufio.Reader\<close> of line 47 has a buffer of
  4096 bytes and is read with a slice of 4096 bytes, so each of its reads goes to \<open>rc\<close>
  directly and returns what \<open>rc\<close> returned.
\<close>

datatype read_status = ReadNil | ReadEOF | ReadErr

type_synonym reader = "(bytes \<times> read_status) list"

fun reader_Read :: "nat \<Rightarrow> reader \<Rightarrow> (bytes \<times> read_status) \<times> reader" where
  "reader_Read cap [] = (([], ReadEOF), [])"
| "reader_Read cap ((c, st) # r) =
     (if length c \<le> cap then ((c, st), r)
      else ((take cap c, ReadNil), (drop cap c, st) # r))"

text \<open>The bytes a reader produces: its data up to the first \<open>io.EOF\<close>.\<close>

fun reader_bytes :: "reader \<Rightarrow> bytes" where
  "reader_bytes [] = []"
| "reader_bytes ((c, st) # r) = (if st = ReadEOF then c else c @ reader_bytes r)"

text \<open>
  \<open>bufio.Writer\<close> with the default buffer of 4096 bytes: \<open>buf\<close> are the bytes held back,
  \<open>written\<close> the bytes passed on to the file so far, \<open>werr\<close> its sticky error.
\<close>

record writer =
  buf :: bytes
  written :: bytes
  werr :: "os_error option"

definition NewWriter :: writer where
  "NewWriter = \<lparr>buf = [], written = [], werr = None\<rparr>"

definition Available :: "writer \<Rightarrow> nat" where
  "Available w = 4096 - length (buf w)"

definition Flush :: "bool \<Rightarrow> writer \<Rightarrow> writer" where
  "Flush denied w =
     (if werr w \<noteq> None then w
      else if buf w = [] then w
      else if denied then w\<lparr>werr := Some ErrDenied\<rparr>
      else w\<lparr>written := written w @ buf w, buf := []\<rparr>)"

text \<open>
  \<open>Writer.Write\<close>: while the data does not fit, either the buffer is empty and the data
  goes to the file as it is, or the buffer is filled up and flushed; what fits is kept in
  the buffer.
\<close>

function bufio_Write :: "bool \<Rightarrow> writer \<Rightarrow> bytes \<Rightarrow> writer \<times> os_error option" where
  "bufio_Write denied w p =
     (if length p > Available w \<and> werr w = None then
        (if buf w = [] then
           (if denied then bufio_Write denied (w\<lparr>werr := Some ErrDenied\<rparr>) p
            else bufio_Write denied (w\<lparr>written := written w @ p\<rparr>) [])
         else bufio_Write denied (Flush denied (w\<lparr>buf := buf w @ take (Available w) p\<rparr>))
                (drop (Available w) p))
      else if werr w \<noteq> None then (w, werr w)
      else (w\<lparr>buf := buf w @ p\<rparr>, None))"
  by pat_completeness auto
termination
  by (relation "measure (\<lambda>(denied, w, p).
        if werr w = None then 1 + 2 * length p + (if buf w = [] then 0 else 1) else 0)")
     (auto simp: Flush_def Available_def)

declare bufio_Write.simps [simp del]

text \<open>
  The loop of lines 50 to 59. A read that returns \<open>io.EOF\<close> ends it, and the data of that
  read is not written; any other read error is overwritten by the result of the write.
\<close>

function copy_loop :: "bool \<Rightarrow> reader \<Rightarrow> writer \<Rightarrow> os_error option \<times> writer" where
  "copy_loop denied rc w =
     (case reader_Read 4096 rc of
        ((chunk, st), rc') \<Rightarrow>
          if st = ReadEOF then (None, w)
          else (case bufio_Write denied w chunk of
                  (w', Some e) \<Rightarrow> (Some e, w')
                | (w', None) \<Rightarrow> copy_loop denied rc' w'))"
  by pat_completeness auto
termination
proof (relation "measure (\<lambda>(denied, rc, w). sum_list (map (\<lambda>(c, st). Suc (length c)) rc))", goal_cases)
  case 1
  show ?case by simp
next
  case (2 denied rc w)
  then show ?case
    by (cases "(4096::nat, rc)" rule: reader_Read.cases) (auto split: if_splits)
qed

declare copy_loop.simps [simp del]

text \<open>
  Lines 36 to 61. The result of \<open>cleanup\<close> is dropped. Nothing flushes the writer before
  the deferred \<open>file.Close()\<close>, so the file receives the bytes that the writer has passed on
  by itself and no more.
\<close>

definition Save :: "filesystem \<Rightarrow> string \<Rightarrow> string \<Rightarrow> reader \<Rightarrow> os_error option \<times> filesystem" where
  "Save fs bid checksum rc =
     (case getBlobDir bid of
        None \<Rightarrow> (Some RuntimePanic, fs)
      | Some d \<Rightarrow>
         (let (dropped, fs1) = cleanup fs bid checksum
          in case os_MkdirAll fs1 d of
               (Some e, fs2) \<Rightarrow> (Some e, fs2)
             | (None, fs2) \<Rightarrow>
                (case os_OpenFile fs2 d (getBlobName bid checksum) of
                   (Some e, fs3) \<Rightarrow> (Some e, fs3)
                 | (None, fs3) \<Rightarrow>
                    (let (err, w) = copy_loop ((d, getBlobName bid checksum) \<in> set (write_denied fs3))
                                      rc NewWriter
                     in (err, write_from_start fs3 d (getBlobName bid checksum) (written w))))))"

subsection \<open>Read\<close>

text \<open>
  Lines 63 to 76. \<open>make\<close> panics for a negative length; the result of \<open>Seek\<close> is dropped, and
  a negative offset leaves the file at offset 0; one \<open>Read\<close> of the file returns the bytes
  there are, up to the length of the slice, and \<open>io.EOF\<close> when there are none for a
  non-empty slice.
\<close>

definition Read ::
  "filesystem \<Rightarrow> string \<Rightarrow> string \<Rightarrow> int \<Rightarrow> int \<Rightarrow> bytes \<times> int \<times> os_error option" where
  "Read fs bid checksum seek l =
     (case getBlobPath bid checksum of
        None \<Rightarrow> ([], 0, Some RuntimePanic)
      | Some (d, name) \<Rightarrow>
         (case os_Open fs d name of
            Inl e \<Rightarrow> ([], 0, Some e)
          | Inr content \<Rightarrow>
              if l < 0 then ([], 0, Some RuntimePanic)
              else
                let rest = drop (if seek < 0 then 0 else nat seek) content;
                    s = min (nat l) (length rest)
                in if l = 0 then ([], 0, None)
                   else if rest = [] then (replicate (nat l) 0, 0, Some ErrEOF)
                   else (take s rest @ replicate (nat l - s) 0, int s, None)))"

text \<open>The blob files kept for an id: the entries of its directory named \<open>id==\<close>checksum.\<close>

definition blobs_of :: "filesystem \<Rightarrow> string \<Rightarrow> string list" where
  "blobs_of fs bid =
     (case getBlobDir bid of
        None \<Rightarrow> []
      | Some d \<Rightarrow>
         (case map_of (dirs fs) d of
            None \<Rightarrow> []
          | Some es \<Rightarrow> filter (\<lambda>n. HasPrefix n (getBlobName bid [])) (map fst es)))"

section \<open>Sample inputs\<close>

definition K0 :: metadata_consts where
  "K0 = \<lparr>IdRootFolder = ''root'', MimeTypeFolder = ''folder''\<rparr>"

definition root_remote :: drive_file where
  "root_remote = \<lparr>file_Id = ''ROOT_REMOTE'', Title = ''My Drive'', file_MimeType = ''folder'',
     file_FileSize = 0, file_Md5Checksum = [], Labels = Some \<lparr>Trashed = False\<rparr>,
     Parents = [], DownloadUrl = []\<rparr>"

definition plain_file :: "string \<Rightarrow> drive_file" where
  "plain_file fid = \<lparr>file_Id = fid, Title = fid, file_MimeType = ''text'',
     file_FileSize = 3, file_Md5Checksum = ''md5'', Labels = Some \<lparr>Trashed = False\<rparr>,
     Parents = [\<lparr>parent_Id = ''ROOT_REMOTE''\<rparr>], DownloadUrl = ''url''\<rparr>"

definition change_of :: "int64 \<Rightarrow> string \<Rightarrow> change" where
  "change_of n fid = \<lparr>change_Id = n, FileId = fid, Deleted = False, File = Some (plain_file fid)\<rparr>"

definition folder_change :: change where
  "folder_change = \<lparr>change_Id = 7, FileId = ''D'', Deleted = False,
     File = Some ((plain_file ''D'')\<lparr>file_MimeType := ''folder'', DownloadUrl := [], Parents := []\<rparr>)\<rparr>"

definition tombstone :: change where
  "tombstone = \<lparr>change_Id = 8, FileId = ''A'', Deleted = True, File = None\<rparr>"

text \<open>
  A sample remote service: one page with the changes of a log whose change id is at least
  the requested start id, and no further page.
\<close>

definition feed_from :: "change list \<Rightarrow> changes_request \<Rightarrow> error + change_list" where
  "feed_from log req =
     Inr \<lparr>NextPageToken = [],
          Items = filter (\<lambda>c. case req_StartChangeId req of
                                  None \<Rightarrow> True
                                | Some start \<Rightarrow> sint start \<le> sint (change_Id c)) log\<rparr>"

definition sample_env :: "change list \<Rightarrow> string list \<Rightarrow> env" where
  "sample_env log failing =
     \<lparr>remote_files_get = (\<lambda>i. Inr root_remote), remote_changes_list = feed_from log,
      meta_save_fails = (\<lambda>i. i \<in> set failing), meta_delete_fails = (\<lambda>i. i \<in> set failing),
      now = 0\<rparr>"

definition state_with :: "int64 option \<Rightarrow> state" where
  "state_with c = \<lparr>cursor = c, trace = []\<rparr>"

text \<open>
  A pass that fails in its only page: the metadata save of the second item fails.
\<close>

definition E4 :: env where
  "E4 = sample_env [change_of 5 ''A'', change_of 6 ''B''] [''B'']"


definition rec_A :: cached_drive_file where
  "rec_A = \<lparr>cdf_Id = ''A'', cdf_ParentId = ''root'', cdf_Name = ''A'',
            cdf_MimeType = ''text'', cdf_FileSize = 3, cdf_Md5Checksum = ''md5'', cdf_LastMod = 0\<rparr>"







text \<open>
  A file system with the given directories in which the removal of the listed files
  fails, one in which no directory can be listed, and a content reader that hands out
  three bytes and then \<open>io.EOF\<close>.
\<close>

definition fs_with :: "(string \<times> (string \<times> bytes) list) list \<Rightarrow> (string \<times> string) list \<Rightarrow> filesystem" where
  "fs_with ds denied =
     \<lparr>dirs = ds, readdir_denied = [], remove_denied = denied, mkdir_denied = [], open_denied = [],
      write_denied = []\<rparr>"

definition fs_unlistable :: "(string \<times> (string \<times> bytes) list) list \<Rightarrow> filesystem" where
  "fs_unlistable ds = (fs_with ds [])\<lparr>readdir_denied := map fst ds\<rparr>"

definition three_bytes :: reader where
  "three_bytes = [([1, 2, 3], ReadNil)]"

text \<open>The calls that a run has added to the trace.\<close>

definition new_events :: "state \<Rightarrow> state \<Rightarrow> event list" where
  "new_events s s' = drop (length (trace s)) (trace s')"

lemmas sample_defs = K0_def root_remote_def plain_file_def change_of_def folder_change_def
  tombstone_def feed_from_def sample_env_def state_with_def E4_def rec_A_def

lemmas sync_defs = syncInbound_def resume_point_def GetLargestChangeId_def meta_Save_def
  meta_Delete_def root_record_def mergeChanges_def build_request_def positive_def mergeChange_def
  save_branch_def delete_branch_def resolve_parent_def IsFolder_def SaveLargestChangeId_def
  new_events_def Let_def


lemmas blob_defs = Save_def Delete_def Read_def cleanup_def ReadDir_def os_Remove_def os_MkdirAll_def
  os_OpenFile_def os_Open_def write_from_start_def getBlobDir_def getBlobName_def getBlobPath_def
  blobs_of_def copy_loop.simps bufio_Write.simps NewWriter_def Available_def Flush_def
  fs_with_def fs_unlistable_def three_bytes_def single_segment_def Let_def

section \<open>Properties of the sync engine\<close>

subsection \<open>What a run adds to the trace and does to the cursor\<close>


lemma mergeChange_trace:
  "\<exists>evs. trace (snd (mergeChange K E rootId item s)) = trace s @ evs \<and> (\<forall>q. ChangesList q \<notin> set evs)"
  by (simp add: mergeChange_def delete_branch_def save_branch_def meta_Delete_def meta_Save_def Let_def
      split: option.split prod.split)


lemma merge_items_trace:
  "\<exists>evs. trace (snd (snd (merge_items K E rootId items largestId s))) = trace s @ evs
        \<and> (\<forall>q. ChangesList q \<notin> set evs)"
proof (induction items arbitrary: largestId s)
  case Nil
  show ?case by simp
next
  case (Cons item items)
  obtain err s1 where m: "mergeChange K E rootId item s = (err, s1)" by (cases "mergeChange K E rootId item s")
  obtain evs1 where e1: "trace s1 = trace s @ evs1" "\<forall>q. ChangesList q \<notin> set evs1"
    using mergeChange_trace [of K E rootId item s] m by auto
  show ?case
  proof (cases err)
    case None
    obtain evs2 where e2: "trace (snd (snd (merge_items K E rootId items (change_Id item) s1))) = trace s1 @ evs2"
       "\<forall>q. ChangesList q \<notin> set evs2"
      using Cons.IH [of "change_Id item" s1] by auto
    have "trace (snd (snd (merge_items K E rootId (item # items) largestId s))) = trace s @ (evs1 @ evs2)"
      using None m e1 e2 by simp
    moreover have "\<forall>q. ChangesList q \<notin> set (evs1 @ evs2)" using e1 e2 by simp
    ultimately show ?thesis by blast
  next
    case (Some e)
    then show ?thesis using m e1 by auto
  qed
qed

lemma mergeChanges_trace:
  "\<exists>evs. trace (snd (snd (mergeChanges K E isInit rootId start tok s)))
           = trace s @ ChangesList (build_request isInit start tok) # evs
        \<and> (\<forall>q. ChangesList q \<notin> set evs)"
proof -
  let ?req = "build_request isInit start tok"
  let ?s1 = "s\<lparr>trace := trace s @ [ChangesList ?req]\<rparr>"
  show ?thesis
  proof (cases "remote_changes_list E ?req")
    case (Inl e)
    then show ?thesis by (simp add: mergeChanges_def Let_def)
  next
    case (Inr changes)
    obtain err lid s2 where mi: "merge_items K E rootId (Items changes) 0 ?s1 = (err, lid, s2)"
      by (cases "merge_items K E rootId (Items changes) 0 ?s1") auto
    obtain evs where ev: "trace s2 = trace ?s1 @ evs" "\<forall>q. ChangesList q \<notin> set evs"
      using merge_items_trace [of K E rootId "Items changes" 0 ?s1] mi by auto
    show ?thesis
    proof (cases err)
      case None
      then show ?thesis using Inr mi ev
        by (auto simp: mergeChanges_def Let_def SaveLargestChangeId_def)
    next
      case (Some e)
      then show ?thesis using Inr mi ev by (auto simp: mergeChanges_def Let_def)
    qed
  qed
qed

lemma sync_pages_trace:
  "\<exists>evs. trace (snd (sync_pages n K E isInit rootId start tok s)) = trace s @ evs
        \<and> (\<forall>q. ChangesList q \<in> set evs \<longrightarrow> (\<exists>t. q = build_request isInit start t))"
proof (induction n arbitrary: tok s)
  case 0
  show ?case by simp
next
  case (Suc n)
  obtain tok' err s1 where m: "mergeChanges K E isInit rootId start tok s = (tok', err, s1)"
    by (cases "mergeChanges K E isInit rootId start tok s") auto
  obtain evs1 where e1: "trace s1 = trace s @ ChangesList (build_request isInit start tok) # evs1"
      "\<forall>q. ChangesList q \<notin> set evs1"
    using mergeChanges_trace [of K E isInit rootId start tok s] m by auto
  show ?case
  proof (cases "err \<noteq> None \<or> tok' = []")
    case True
    then have "sync_pages (Suc n) K E isInit rootId start tok s = (Some err, s1)" using m by simp
    then show ?thesis using e1 by auto
  next
    case False
    then have r: "sync_pages (Suc n) K E isInit rootId start tok s = sync_pages n K E isInit rootId start tok' s1"
      using m by simp
    obtain evs2 where e2: "trace (snd (sync_pages n K E isInit rootId start tok' s1)) = trace s1 @ evs2"
       "\<forall>q. ChangesList q \<in> set evs2 \<longrightarrow> (\<exists>t. q = build_request isInit start t)"
      using Suc.IH [of tok' s1] by auto
    have "trace (snd (sync_pages (Suc n) K E isInit rootId start tok s))
            = trace s @ (ChangesList (build_request isInit start tok) # evs1 @ evs2)"
      using r e1 e2 by simp
    moreover have "\<forall>q. ChangesList q \<in> set (ChangesList (build_request isInit start tok) # evs1 @ evs2)
                 \<longrightarrow> (\<exists>t. q = build_request isInit start t)"
      using e1 e2 by auto
    ultimately show ?thesis by blast
  qed
qed

lemma syncInbound_trace:
  "\<exists>evs. trace (snd (syncInbound fuel K E isForce s)) = trace s @ evs
        \<and> (\<forall>q. ChangesList q \<in> set evs \<longrightarrow>
              (\<exists>t. q = build_request (resume_point isForce s = 0) (resume_point isForce s) t))"
proof (cases "remote_files_get E (IdRootFolder K)")
  case (Inl e)
  then show ?thesis by (simp add: syncInbound_def Let_def)
next
  case (Inr rootFile)
  let ?s0 = "s\<lparr>trace := trace s @ [FilesGet (IdRootFolder K)]\<rparr>"
  let ?ev = "MetaSave [] (IdRootFolder K) (root_record K E rootFile) False False"
  let ?s1 = "?s0\<lparr>trace := trace ?s0 @ [?ev]\<rparr>"
  show ?thesis
  proof (cases "meta_save_fails E (IdRootFolder K)")
    case True
    then show ?thesis using Inr by (simp add: syncInbound_def Let_def meta_Save_def)
  next
    case False
    let ?rp = "resume_point isForce s"
    have r: "syncInbound fuel K E isForce s = sync_pages fuel K E (?rp = 0) (file_Id rootFile) ?rp [] ?s1"
      using Inr False by (simp add: syncInbound_def Let_def meta_Save_def)
    obtain evs where e: "trace (snd (sync_pages fuel K E (?rp = 0) (file_Id rootFile) ?rp [] ?s1)) = trace ?s1 @ evs"
       "\<forall>q. ChangesList q \<in> set evs \<longrightarrow> (\<exists>t. q = build_request (?rp = 0) ?rp t)"
      using sync_pages_trace [of fuel K E "?rp = 0" "file_Id rootFile" ?rp "[]" ?s1] by auto
    have "trace (snd (syncInbound fuel K E isForce s)) = trace s @ (FilesGet (IdRootFolder K) # ?ev # evs)"
      using r e by simp
    moreover have "\<forall>q. ChangesList q \<in> set (FilesGet (IdRootFolder K) # ?ev # evs) \<longrightarrow>
              (\<exists>t. q = build_request (?rp = 0) ?rp t)"
      using e by auto
    ultimately show ?thesis by blast
  qed
qed

lemma build_request_IncludeDeleted:
  "req_IncludeDeleted (build_request isInit start tok) = (if isInit then Some False else None)"
  by (simp add: build_request_def Let_def)











subsection \<open>Where the saves of a pass come from\<close>

lemma mergeChange_saves:
  "\<exists>evs. trace (snd (mergeChange K E rootId item s)) = trace s @ evs
        \<and> (\<forall>p fid m leaf flag. MetaSave p fid m leaf flag \<in> set evs \<longrightarrow>
              saved_for K rootId item (MetaSave p fid m leaf flag))"
  by (simp add: mergeChange_def delete_branch_def save_branch_def meta_Delete_def meta_Save_def Let_def
      saved_for_def expected_parent_def resolve_parent_def split: option.split prod.split)

lemma merge_items_saves:
  "\<exists>evs. trace (snd (snd (merge_items K E rootId items largestId s))) = trace s @ evs
        \<and> (\<forall>p fid m leaf flag. MetaSave p fid m leaf flag \<in> set evs \<longrightarrow>
              (\<exists>item \<in> set items. saved_for K rootId item (MetaSave p fid m leaf flag)))"
proof (induction items arbitrary: largestId s)
  case Nil
  show ?case by simp
next
  case (Cons item items)
  obtain err s1 where m: "mergeChange K E rootId item s = (err, s1)" by (cases "mergeChange K E rootId item s")
  obtain evs1 where e1: "trace s1 = trace s @ evs1"
      "\<forall>p fid m leaf flag. MetaSave p fid m leaf flag \<in> set evs1 \<longrightarrow>
              saved_for K rootId item (MetaSave p fid m leaf flag)"
    using mergeChange_saves [of K E rootId item s] m by auto
  show ?case
  proof (cases err)
    case None
    obtain evs2 where e2: "trace (snd (snd (merge_items K E rootId items (change_Id item) s1))) = trace s1 @ evs2"
       "\<forall>p fid m leaf flag. MetaSave p fid m leaf flag \<in> set evs2 \<longrightarrow>
              (\<exists>item \<in> set items. saved_for K rootId item (MetaSave p fid m leaf flag))"
      using Cons.IH [of "change_Id item" s1] by auto
    have "trace (snd (snd (merge_items K E rootId (item # items) largestId s))) = trace s @ (evs1 @ evs2)"
      using None m e1 e2 by simp
    moreover have "\<forall>p fid m leaf flag. MetaSave p fid m leaf flag \<in> set (evs1 @ evs2) \<longrightarrow>
              (\<exists>i \<in> set (item # items). saved_for K rootId i (MetaSave p fid m leaf flag))"
      using e1(2) e2(2) by auto
    ultimately show ?thesis by (intro exI conjI)
  next
    case (Some e)
    have "trace (snd (snd (merge_items K E rootId (item # items) largestId s))) = trace s @ evs1"
      using Some m e1 by simp
    moreover have "\<forall>p fid m leaf flag. MetaSave p fid m leaf flag \<in> set evs1 \<longrightarrow>
              (\<exists>i \<in> set (item # items). saved_for K rootId i (MetaSave p fid m leaf flag))"
      using e1(2) by auto
    ultimately show ?thesis by (intro exI conjI)
  qed
qed

lemma mergeChanges_saves:
  "\<exists>evs. trace (snd (snd (mergeChanges K E isInit rootId start tok s))) = trace s @ evs
        \<and> (\<forall>p fid m leaf flag. MetaSave p fid m leaf flag \<in> set evs \<longrightarrow>
              from_feed K E rootId (MetaSave p fid m leaf flag))"
proof -
  let ?req = "build_request isInit start tok"
  let ?s1 = "s\<lparr>trace := trace s @ [ChangesList ?req]\<rparr>"
  show ?thesis
  proof (cases "remote_changes_list E ?req")
    case (Inl e)
    then show ?thesis by (simp add: mergeChanges_def Let_def)
  next
    case (Inr changes)
    obtain err lid s2 where mi: "merge_items K E rootId (Items changes) 0 ?s1 = (err, lid, s2)"
      by (cases "merge_items K E rootId (Items changes) 0 ?s1") auto
    obtain evs where ev: "trace s2 = trace ?s1 @ evs"
        "\<forall>p fid m leaf flag. MetaSave p fid m leaf flag \<in> set evs \<longrightarrow>
              (\<exists>item \<in> set (Items changes). saved_for K rootId item (MetaSave p fid m leaf flag))"
      using merge_items_saves [of K E rootId "Items changes" 0 ?s1] mi by auto
    have ff: "\<forall>p fid m leaf flag. MetaSave p fid m leaf flag \<in> set evs \<longrightarrow>
              from_feed K E rootId (MetaSave p fid m leaf flag)"
      using ev(2) Inr unfolding from_feed_def by blast
    have "\<exists>more. trace (snd (snd (mergeChanges K E isInit rootId start tok s)))
              = trace s @ (ChangesList ?req # evs @ more)
            \<and> (\<forall>p fid m leaf flag. MetaSave p fid m leaf flag \<notin> set more)"
    proof (cases err)
      case None
      then show ?thesis using Inr mi ev(1)
        by (auto simp: mergeChanges_def Let_def SaveLargestChangeId_def)
    next
      case (Some e)
      then show ?thesis using Inr mi ev(1) by (auto simp: mergeChanges_def Let_def)
    qed
    then obtain more where more:
        "trace (snd (snd (mergeChanges K E isInit rootId start tok s))) = trace s @ (ChangesList ?req # evs @ more)"
        "\<forall>p fid m leaf flag. MetaSave p fid m leaf flag \<notin> set more"
      by auto
    have "\<forall>p fid m leaf flag. MetaSave p fid m leaf flag \<in> set (ChangesList ?req # evs @ more) \<longrightarrow>
              from_feed K E rootId (MetaSave p fid m leaf flag)"
      using ff more(2) by auto
    with more(1) show ?thesis by (intro exI conjI)
  qed
qed

lemma sync_pages_saves:
  "\<exists>evs. trace (snd (sync_pages n K E isInit rootId start tok s)) = trace s @ evs
        \<and> (\<forall>p fid m leaf flag. MetaSave p fid m leaf flag \<in> set evs \<longrightarrow>
              from_feed K E rootId (MetaSave p fid m leaf flag))"
proof (induction n arbitrary: tok s)
  case 0
  show ?case by simp
next
  case (Suc n)
  obtain tok' err s1 where m: "mergeChanges K E isInit rootId start tok s = (tok', err, s1)"
    by (cases "mergeChanges K E isInit rootId start tok s") auto
  obtain evs1 where e1: "trace s1 = trace s @ evs1"
      "\<forall>p fid m leaf flag. MetaSave p fid m leaf flag \<in> set evs1 \<longrightarrow>
              from_feed K E rootId (MetaSave p fid m leaf flag)"
    using mergeChanges_saves [of K E isInit rootId start tok s] m by auto
  show ?case
  proof (cases "err \<noteq> None \<or> tok' = []")
    case True
    then have "sync_pages (Suc n) K E isInit rootId start tok s = (Some err, s1)" using m by simp
    then have "trace (snd (sync_pages (Suc n) K E isInit rootId start tok s)) = trace s @ evs1"
      using e1(1) by simp
    with e1(2) show ?thesis by (intro exI conjI)
  next
    case False
    then have r: "sync_pages (Suc n) K E isInit rootId start tok s = sync_pages n K E isInit rootId start tok' s1"
      using m by simp
    obtain evs2 where e2: "trace (snd (sync_pages n K E isInit rootId start tok' s1)) = trace s1 @ evs2"
       "\<forall>p fid m leaf flag. MetaSave p fid m leaf flag \<in> set evs2 \<longrightarrow>
              from_feed K E rootId (MetaSave p fid m leaf flag)"
      using Suc.IH [of tok' s1] by auto
    have "trace (snd (sync_pages (Suc n) K E isInit rootId start tok s)) = trace s @ (evs1 @ evs2)"
      using r e1 e2 by simp
    moreover have "\<forall>p fid m leaf flag. MetaSave p fid m leaf flag \<in> set (evs1 @ evs2) \<longrightarrow>
              from_feed K E rootId (MetaSave p fid m leaf flag)"
      using e1(2) e2(2) by auto
    ultimately show ?thesis by (intro exI conjI)
  qed
qed

subsection \<open>A pass over a paged log\<close>














subsection \<open>The sample passes\<close>




subsection \<open>The claims about the sync engine\<close>

text \<open>
  Claim C7. The resume point is 0 when \<open>force\<close> is set or reading the persisted cursor
  fails, and the persisted cursor plus 1 otherwise; and every change request of the pass
  excludes the deletion tombstones (\<open>IncludeDeleted(false)\<close> is set) when the resume point
  is 0, and leaves them as the service has them when it is not.
\<close>

theorem cursor_resolution:
  "resume_point isForce s =
     (if isForce \<or> snd (GetLargestChangeId s) \<noteq> None then 0 else fst (GetLargestChangeId s) + 1)
   \<and> (\<forall>r. ChangesList r \<in> set (new_events s (snd (syncInbound fuel K E isForce s))) \<longrightarrow>
          req_IncludeDeleted r = (if resume_point isForce s = 0 then Some False else None))"
proof
  show "resume_point isForce s =
     (if isForce \<or> snd (GetLargestChangeId s) \<noteq> None then 0 else fst (GetLargestChangeId s) + 1)"
    by (simp add: resume_point_def split: prod.split)
next
  obtain evs where e: "trace (snd (syncInbound fuel K E isForce s)) = trace s @ evs"
     "\<forall>q. ChangesList q \<in> set evs \<longrightarrow>
              (\<exists>t. q = build_request (resume_point isForce s = 0) (resume_point isForce s) t)"
    using syncInbound_trace [of fuel K E isForce s] by auto
  have "new_events s (snd (syncInbound fuel K E isForce s)) = evs"
    using e by (simp add: new_events_def)
  then show "\<forall>r. ChangesList r \<in> set (new_events s (snd (syncInbound fuel K E isForce s))) \<longrightarrow>
          req_IncludeDeleted r = (if resume_point isForce s = 0 then Some False else None)"
    using e(2) build_request_IncludeDeleted by fastforce
qed


theorem cursor_resolution_witness:
  "ChangesList (build_request False 5 []) \<in> set (new_events (state_with (Some 4))
       (snd (syncInbound 1 K0 (sample_env [change_of 5 ''A''] []) False (state_with (Some 4)))))
   \<and> resume_point False (state_with (Some 4)) = 5
   \<and> req_IncludeDeleted (build_request False 5 []) = None"
proof -
  have h: "ChangesList (build_request False 5 []) \<in> set (new_events (state_with (Some 4))
       (snd (syncInbound 1 K0 (sample_env [change_of 5 ''A''] []) False (state_with (Some 4)))))"
    by (simp add: sample_defs sync_defs)
  have r: "resume_point False (state_with (Some 4)) = 5"
    by (simp add: sample_defs sync_defs)
  from cursor_resolution [of False "state_with (Some 4)" 1 K0 "sample_env [change_of 5 ''A''] []"] h r
  show ?thesis by simp
qed

text \<open>
  Claim C9. For a change item that is deleted, or whose file is trashed, \<open>mergeChange\<close>
  returns no error whatever the metadata collaborator's delete answers: the delete is
  called, its result is dropped, and the test reads the stale \<open>err\<close>.
\<close>

theorem mergeChange_delete_error_dropped:
  assumes "Deleted item \<or> (\<exists>f l. File item = Some f \<and> Labels f = Some l \<and> Trashed l)"
  shows "fst (mergeChange K E rootId item s) = None
       \<and> trace (snd (mergeChange K E rootId item s)) = trace s @ [MetaDelete (FileId item)]"
  using assms
  by (auto simp: mergeChange_def delete_branch_def meta_Delete_def split: prod.split)

theorem mergeChange_delete_error_dropped_witness:
  "Deleted tombstone \<and> meta_delete_fails (sample_env [] [''A'']) (FileId tombstone)
   \<and> fst (mergeChange K0 (sample_env [] [''A'']) ''ROOT_REMOTE'' tombstone (state_with None)) = None"
proof -
  have h: "Deleted tombstone" by (simp add: tombstone_def)
  from mergeChange_delete_error_dropped [of tombstone K0 "sample_env [] [''A'']" "''ROOT_REMOTE''" "state_with None"] h
  show ?thesis by (simp add: tombstone_def sample_env_def)
qed

text \<open>
  Claim C5. For a change item that is neither deleted nor trashed: with an empty download
  reference and a MIME type other than the folder type, \<open>mergeChange\<close> returns without
  touching the metadata collaborator; with the folder MIME type it calls the
  collaborator's save for the item, whatever the download reference, with the leaf flag
  false (and the second flag false), and returns what the save returns.
\<close>

theorem folder_and_download_rule:
  assumes "\<not> Deleted item" and "File item = Some f" and "Labels f = Some l" and "\<not> Trashed l"
  shows "(DownloadUrl f = [] \<and> file_MimeType f \<noteq> MimeTypeFolder K \<longrightarrow>
            mergeChange K E rootId item s = (None, s))
       \<and> (file_MimeType f = MimeTypeFolder K \<longrightarrow>
            (\<exists>parentId metadata.
               trace (snd (mergeChange K E rootId item s))
                 = trace s @ [MetaSave parentId (FileId item) metadata False False]
               \<and> cdf_Id metadata = FileId item
               \<and> fst (mergeChange K E rootId item s)
                   = (if meta_save_fails E (FileId item) then Some MetaSaveError else None)))"
  using assms
  by (simp add: mergeChange_def save_branch_def meta_Save_def IsFolder_def Let_def)

theorem folder_and_download_rule_witness:
  "\<not> Deleted folder_change
   \<and> (\<exists>f l. File folder_change = Some f \<and> Labels f = Some l \<and> \<not> Trashed l
            \<and> DownloadUrl f = [] \<and> file_MimeType f = MimeTypeFolder K0)
   \<and> trace (snd (mergeChange K0 (sample_env [] []) ''ROOT_REMOTE'' folder_change (state_with None)))
        = [MetaSave [] ''D'' \<lparr>cdf_Id = ''D'', cdf_ParentId = [], cdf_Name = ''D'',
            cdf_MimeType = ''folder'', cdf_FileSize = 3, cdf_Md5Checksum = ''md5'', cdf_LastMod = 0\<rparr>
            False False]
   \<and> mergeChange K0 (sample_env [] []) ''ROOT_REMOTE''
        (change_of 9 ''E''\<lparr>File := Some (plain_file ''E''\<lparr>DownloadUrl := []\<rparr>)\<rparr>) (state_with None)
       = (None, state_with None)"
proof -
  let ?f = "plain_file ''D''\<lparr>file_MimeType := ''folder'', DownloadUrl := [], Parents := []\<rparr>"
  let ?g = "plain_file ''E''\<lparr>DownloadUrl := []\<rparr>"
  let ?e = "change_of 9 ''E''\<lparr>File := Some ?g\<rparr>"
  have a: "\<not> Deleted folder_change" "File folder_change = Some ?f" "Labels ?f = Some \<lparr>Trashed = False\<rparr>"
       "\<not> Trashed \<lparr>Trashed = False\<rparr>"
    by (simp_all add: sample_defs)
  have b: "\<not> Deleted ?e" "File ?e = Some ?g" "Labels ?g = Some \<lparr>Trashed = False\<rparr>"
    by (simp_all add: sample_defs)
  have c: "DownloadUrl ?f = []" "file_MimeType ?f = MimeTypeFolder K0"
       "DownloadUrl ?g = []" "file_MimeType ?g \<noteq> MimeTypeFolder K0"
    by (simp_all add: sample_defs)
  have skipped: "mergeChange K0 (sample_env [] []) ''ROOT_REMOTE'' ?e (state_with None) = (None, state_with None)"
    using folder_and_download_rule [OF b a(4), of K0 "sample_env [] []" "''ROOT_REMOTE''" "state_with None"] c
    by simp
  have kept: "trace (snd (mergeChange K0 (sample_env [] []) ''ROOT_REMOTE'' folder_change (state_with None)))
        = [MetaSave [] ''D'' \<lparr>cdf_Id = ''D'', cdf_ParentId = [], cdf_Name = ''D'',
            cdf_MimeType = ''folder'', cdf_FileSize = 3, cdf_Md5Checksum = ''md5'', cdf_LastMod = 0\<rparr>
            False False]"
    by (simp add: sample_defs sync_defs)
  show ?thesis using a c skipped kept by simp
qed

text \<open>
  Claim C6. Every save that \<open>mergeChange\<close> makes for a change item passes, and stores in the
  record, the id of the first listed parent, or the empty string when no parent is listed,
  with the sentinel root id in its place when it equals the root id it is given. And every
  pass starts by fetching the root file; when that fails nothing else happens; otherwise
  the root record, with the sentinel id, no parent and the name, MIME type, size and
  checksum of the fetched root file, is saved under the sentinel id before any page is
  requested or merged, nothing follows when that save fails, and every save that follows
  is the save of an item of a page delivered by the remote service, under the parent id
  resolved against the id of the fetched root file.
\<close>

theorem root_identity_remap:
  "(\<forall>p fid metadata leaf flag.
      MetaSave p fid metadata leaf flag \<in> set (new_events s (snd (mergeChange K E rootId item s))) \<longrightarrow>
        (\<exists>f. File item = Some f \<and> fid = FileId item \<and> cdf_ParentId metadata = p
           \<and> p = (let first = (case Parents f of [] \<Rightarrow> [] | r # rs \<Rightarrow> parent_Id r)
                  in if first = rootId then IdRootFolder K else first)))
   \<and> (case remote_files_get E (IdRootFolder K) of
        Inl e \<Rightarrow> new_events s (snd (syncInbound fuel K E isForce s)) = [FilesGet (IdRootFolder K)]
      | Inr rootFile \<Rightarrow>
          (\<exists>root_saved rest.
              new_events s (snd (syncInbound fuel K E isForce s))
                = FilesGet (IdRootFolder K) # MetaSave [] (IdRootFolder K) root_saved False False # rest
            \<and> root_saved = root_record K E rootFile
            \<and> cdf_Id root_saved = IdRootFolder K \<and> cdf_ParentId root_saved = []
            \<and> cdf_Name root_saved = Title rootFile \<and> cdf_MimeType root_saved = file_MimeType rootFile
            \<and> cdf_FileSize root_saved = file_FileSize rootFile
            \<and> cdf_Md5Checksum root_saved = file_Md5Checksum rootFile
            \<and> cdf_LastMod root_saved = now E
            \<and> (meta_save_fails E (IdRootFolder K) \<longrightarrow> rest = [])
            \<and> (\<forall>p fid metadata leaf flag.
                  MetaSave p fid metadata leaf flag \<in> set rest \<longrightarrow>
                    (\<exists>req page item f.
                        remote_changes_list E req = Inr page \<and> item \<in> set (Items page)
                      \<and> File item = Some f \<and> fid = FileId item \<and> cdf_ParentId metadata = p
                      \<and> p = (let first = (case Parents f of [] \<Rightarrow> [] | r # rs \<Rightarrow> parent_Id r)
                             in if first = file_Id rootFile then IdRootFolder K else first)))))"
proof
  show "\<forall>p fid metadata leaf flag.
      MetaSave p fid metadata leaf flag \<in> set (new_events s (snd (mergeChange K E rootId item s))) \<longrightarrow>
        (\<exists>f. File item = Some f \<and> fid = FileId item \<and> cdf_ParentId metadata = p
           \<and> p = (let first = (case Parents f of [] \<Rightarrow> [] | r # rs \<Rightarrow> parent_Id r)
                  in if first = rootId then IdRootFolder K else first))"
    by (auto simp: new_events_def mergeChange_def delete_branch_def save_branch_def meta_Delete_def
          meta_Save_def resolve_parent_def Let_def split: option.splits if_splits)
next
  show "case remote_files_get E (IdRootFolder K) of
        Inl e \<Rightarrow> new_events s (snd (syncInbound fuel K E isForce s)) = [FilesGet (IdRootFolder K)]
      | Inr rootFile \<Rightarrow>
          (\<exists>root_saved rest.
              new_events s (snd (syncInbound fuel K E isForce s))
                = FilesGet (IdRootFolder K) # MetaSave [] (IdRootFolder K) root_saved False False # rest
            \<and> root_saved = root_record K E rootFile
            \<and> cdf_Id root_saved = IdRootFolder K \<and> cdf_ParentId root_saved = []
            \<and> cdf_Name root_saved = Title rootFile \<and> cdf_MimeType root_saved = file_MimeType rootFile
            \<and> cdf_FileSize root_saved = file_FileSize rootFile
            \<and> cdf_Md5Checksum root_saved = file_Md5Checksum rootFile
            \<and> cdf_LastMod root_saved = now E
            \<and> (meta_save_fails E (IdRootFolder K) \<longrightarrow> rest = [])
            \<and> (\<forall>p fid metadata leaf flag.
                  MetaSave p fid metadata leaf flag \<in> set rest \<longrightarrow>
                    (\<exists>req page item f.
                        remote_changes_list E req = Inr page \<and> item \<in> set (Items page)
                      \<and> File item = Some f \<and> fid = FileId item \<and> cdf_ParentId metadata = p
                      \<and> p = (let first = (case Parents f of [] \<Rightarrow> [] | r # rs \<Rightarrow> parent_Id r)
                             in if first = file_Id rootFile then IdRootFolder K else first))))"
  proof (cases "remote_files_get E (IdRootFolder K)")
    case (Inl e)
    then show ?thesis by (simp add: syncInbound_def Let_def new_events_def)
  next
    case (Inr rootFile)
    let ?s0 = "s\<lparr>trace := trace s @ [FilesGet (IdRootFolder K)]\<rparr>"
    let ?rr = "root_record K E rootFile"
    let ?ev = "MetaSave [] (IdRootFolder K) ?rr False False"
    let ?s1 = "?s0\<lparr>trace := trace ?s0 @ [?ev]\<rparr>"
    have fields: "cdf_Id ?rr = IdRootFolder K \<and> cdf_ParentId ?rr = []
            \<and> cdf_Name ?rr = Title rootFile \<and> cdf_MimeType ?rr = file_MimeType rootFile
            \<and> cdf_FileSize ?rr = file_FileSize rootFile
            \<and> cdf_Md5Checksum ?rr = file_Md5Checksum rootFile
            \<and> cdf_LastMod ?rr = now E"
      by (simp add: root_record_def)
    have "\<exists>rest. new_events s (snd (syncInbound fuel K E isForce s)) = FilesGet (IdRootFolder K) # ?ev # rest
            \<and> (meta_save_fails E (IdRootFolder K) \<longrightarrow> rest = [])
            \<and> (\<forall>p fid metadata leaf flag.
                  MetaSave p fid metadata leaf flag \<in> set rest \<longrightarrow>
                    from_feed K E (file_Id rootFile) (MetaSave p fid metadata leaf flag))"
    proof (cases "meta_save_fails E (IdRootFolder K)")
      case True
      then have "new_events s (snd (syncInbound fuel K E isForce s)) = FilesGet (IdRootFolder K) # ?ev # []"
        using Inr by (simp add: syncInbound_def Let_def meta_Save_def new_events_def)
      then show ?thesis by (intro exI [of _ "[]"] conjI) simp_all
    next
      case False
      let ?rp = "resume_point isForce s"
      have r: "syncInbound fuel K E isForce s = sync_pages fuel K E (?rp = 0) (file_Id rootFile) ?rp [] ?s1"
        using Inr False by (simp add: syncInbound_def Let_def meta_Save_def)
      obtain evs where e:
          "trace (snd (sync_pages fuel K E (?rp = 0) (file_Id rootFile) ?rp [] ?s1)) = trace ?s1 @ evs"
          "\<forall>p fid m leaf flag. MetaSave p fid m leaf flag \<in> set evs \<longrightarrow>
              from_feed K E (file_Id rootFile) (MetaSave p fid m leaf flag)"
        using sync_pages_saves [of fuel K E "?rp = 0" "file_Id rootFile" ?rp "[]" ?s1] by auto
      have "new_events s (snd (syncInbound fuel K E isForce s)) = FilesGet (IdRootFolder K) # ?ev # evs"
        using r e(1) by (simp add: new_events_def)
      with e(2) False show ?thesis by (intro exI [of _ evs] conjI) simp_all
    qed
    then obtain rest where rest:
        "new_events s (snd (syncInbound fuel K E isForce s)) = FilesGet (IdRootFolder K) # ?ev # rest"
        "meta_save_fails E (IdRootFolder K) \<longrightarrow> rest = []"
        "\<forall>p fid metadata leaf flag.
                  MetaSave p fid metadata leaf flag \<in> set rest \<longrightarrow>
                    from_feed K E (file_Id rootFile) (MetaSave p fid metadata leaf flag)"
      by auto
    have explicit: "\<forall>p fid metadata leaf flag.
                  MetaSave p fid metadata leaf flag \<in> set rest \<longrightarrow>
                    (\<exists>req page item f.
                        remote_changes_list E req = Inr page \<and> item \<in> set (Items page)
                      \<and> File item = Some f \<and> fid = FileId item \<and> cdf_ParentId metadata = p
                      \<and> p = (let first = (case Parents f of [] \<Rightarrow> [] | r # rs \<Rightarrow> parent_Id r)
                             in if first = file_Id rootFile then IdRootFolder K else first))"
    proof (intro allI impI)
      fix p fid metadata leaf flag
      assume "MetaSave p fid metadata leaf flag \<in> set rest"
      then have "from_feed K E (file_Id rootFile) (MetaSave p fid metadata leaf flag)"
        using rest(3) by simp
      then obtain req page item where
          i: "remote_changes_list E req = Inr page" "item \<in> set (Items page)"
             "saved_for K (file_Id rootFile) item (MetaSave p fid metadata leaf flag)"
        unfolding from_feed_def by auto
      from i(3) obtain f where
          f: "File item = Some f" "p = expected_parent K (file_Id rootFile) f" "fid = FileId item"
             "cdf_ParentId metadata = p"
        unfolding saved_for_def by (cases "File item") auto
      from f(2) have "p = (let first = (case Parents f of [] \<Rightarrow> [] | r # rs \<Rightarrow> parent_Id r)
                             in if first = file_Id rootFile then IdRootFolder K else first)"
        unfolding expected_parent_def .
      with i(1,2) f(1,3,4)
      show "\<exists>req page item f.
                        remote_changes_list E req = Inr page \<and> item \<in> set (Items page)
                      \<and> File item = Some f \<and> fid = FileId item \<and> cdf_ParentId metadata = p
                      \<and> p = (let first = (case Parents f of [] \<Rightarrow> [] | r # rs \<Rightarrow> parent_Id r)
                             in if first = file_Id rootFile then IdRootFolder K else first)"
        by (intro exI conjI)
    qed
    show ?thesis
      unfolding Inr sum.case
      apply (rule exI [of _ ?rr], rule exI [of _ rest])
      using rest(1) rest(2) explicit fields apply simp
      done
  qed
qed

theorem root_identity_remap_witness:
  "MetaSave ''root'' ''A'' rec_A True False
     \<in> set (new_events (state_with None)
          (snd (mergeChange K0 (sample_env [change_of 5 ''A''] []) ''ROOT_REMOTE'' (change_of 5 ''A'') (state_with None))))
   \<and> parent_Id (hd (Parents (plain_file ''A''))) = ''ROOT_REMOTE''
   \<and> file_Id root_remote = ''ROOT_REMOTE''
   \<and> IdRootFolder K0 = ''root''
   \<and> remote_files_get (sample_env [change_of 5 ''A''] []) (IdRootFolder K0) = Inr root_remote
   \<and> new_events (state_with (Some 0))
        (snd (syncInbound 1 K0 (sample_env [change_of 5 ''A''] []) True (state_with (Some 0))))
      = [FilesGet ''root'',
         MetaSave [] ''root'' (root_record K0 (sample_env [change_of 5 ''A''] []) root_remote) False False,
         ChangesList (build_request True 0 []),
         MetaSave ''root'' ''A'' rec_A True False,
         MetaSaveLargestChangeId 5]
   \<and> cursor (snd (syncInbound 1 K0 (sample_env [change_of 5 ''A''] []) True (state_with (Some 0)))) = Some 5"
proof -
  have h: "MetaSave ''root'' ''A'' rec_A True False
     \<in> set (new_events (state_with None)
          (snd (mergeChange K0 (sample_env [change_of 5 ''A''] []) ''ROOT_REMOTE'' (change_of 5 ''A'') (state_with None))))"
    by (simp add: rec_A_def sample_defs sync_defs)
  have g: "remote_files_get (sample_env [change_of 5 ''A''] []) (IdRootFolder K0) = Inr root_remote"
      "\<not> meta_save_fails (sample_env [change_of 5 ''A''] []) (IdRootFolder K0)"
    by (simp_all add: sample_defs)
  have run: "new_events (state_with (Some 0))
        (snd (syncInbound 1 K0 (sample_env [change_of 5 ''A''] []) True (state_with (Some 0))))
      = [FilesGet ''root'',
         MetaSave [] ''root'' (root_record K0 (sample_env [change_of 5 ''A''] []) root_remote) False False,
         ChangesList (build_request True 0 []),
         MetaSave ''root'' ''A'' rec_A True False,
         MetaSaveLargestChangeId 5]"
      "cursor (snd (syncInbound 1 K0 (sample_env [change_of 5 ''A''] []) True (state_with (Some 0)))) = Some 5"
    by (simp_all add: sample_defs sync_defs)
  have more: "parent_Id (hd (Parents (plain_file ''A''))) = ''ROOT_REMOTE''"
      "file_Id root_remote = ''ROOT_REMOTE''" "IdRootFolder K0 = ''root''"
    by (simp_all add: sample_defs)
  from root_identity_remap [of "state_with None" K0 "sample_env [change_of 5 ''A''] []" "''ROOT_REMOTE''"
        "change_of 5 ''A''" 1 True] h g run more
  show ?thesis by simp
qed






section \<open>Properties of the blob store\<close>

subsection \<open>What each operation does to the files\<close>

lemma os_Open_file_at:
  "os_Open fs d n = (case file_at fs d n of None \<Rightarrow> Inl ErrNotExist | Some c \<Rightarrow> Inr c)"
  by (simp add: os_Open_def file_at_def split: option.split)

lemma HasPrefix_iff: "HasPrefix s p \<longleftrightarrow> (\<exists>t. s = p @ t)"
  by (induction s p rule: HasPrefix.induct) auto

lemma HasPrefix_Contains: "HasPrefix s p \<Longrightarrow> Contains s p"
  by (cases s) (auto simp: HasPrefix_iff)

lemma Contains_blob_name: "Contains (getBlobName bid checksum) (getBlobName bid [])"
  by (rule HasPrefix_Contains) (simp add: HasPrefix_iff getBlobName_def)

lemma getBlobName_inject: "getBlobName bid c1 = getBlobName bid c2 \<longleftrightarrow> c1 = c2"
  by (simp add: getBlobName_def)

lemma os_Remove_file_at:
  "file_at (snd (os_Remove fs d n)) d' m =
     (if d' = d \<and> m = n \<and> (d, n) \<notin> set (remove_denied fs) then None else file_at fs d' m)"
  by (auto simp: os_Remove_def file_at_def update_conv' delete_conv' split: option.split)

lemma os_Remove_denied: "remove_denied (snd (os_Remove fs d n)) = remove_denied fs"
  by (simp add: os_Remove_def split: option.split)

lemma os_Remove_listing: "readdir_denied (snd (os_Remove fs d n)) = readdir_denied fs"
  by (simp add: os_Remove_def split: option.split)

lemma remove_stale_listing: "readdir_denied (remove_stale fs d keep pat names) = readdir_denied fs"
  by (induction names arbitrary: fs) (simp_all add: os_Remove_listing)

lemma remove_stale_denied: "remove_denied (remove_stale fs d keep pat names) = remove_denied fs"
  by (induction names arbitrary: fs) (simp_all add: os_Remove_denied)

lemma remove_stale_file_at:
  "file_at (remove_stale fs d keep pat names) d' m =
     (if d' = d \<and> m \<in> set names \<and> m \<noteq> keep \<and> Contains m pat \<and> (d, m) \<notin> set (remove_denied fs)
      then None else file_at fs d' m)"
proof (induction names arbitrary: fs)
  case Nil
  show ?case by simp
next
  case (Cons name names)
  show ?case
    by (auto simp: Cons.IH os_Remove_file_at os_Remove_denied)
qed

lemma file_at_names:
  "map_of (dirs fs) d = Some es \<Longrightarrow> m \<in> set (map fst es) \<longleftrightarrow> file_at fs d m \<noteq> None"
  by (simp add: file_at_def map_of_eq_None_iff)

lemma cleanup_file_at:
  assumes "getBlobDir bid = Some d" and "d \<notin> set (readdir_denied fs)"
  shows "file_at (snd (cleanup fs bid checksum)) d' m =
     (if d' = d \<and> m \<noteq> getBlobName bid checksum \<and> Contains m (getBlobName bid [])
         \<and> (d, m) \<notin> set (remove_denied fs)
      then None else file_at fs d' m)"
proof (cases "map_of (dirs fs) d")
  case None
  then have "file_at fs d m = None" by (simp add: file_at_def)
  then show ?thesis using None assms by (auto simp: cleanup_def ReadDir_def)
next
  case (Some es)
  have "m \<in> set (map fst es) \<longleftrightarrow> file_at fs d m \<noteq> None" using Some by (rule file_at_names)
  then show ?thesis using Some assms
    by (auto simp: cleanup_def ReadDir_def remove_stale_file_at)
qed

lemma cleanup_denied: "remove_denied (snd (cleanup fs bid checksum)) = remove_denied fs"
  by (simp add: cleanup_def ReadDir_def remove_stale_denied split: option.split)

lemma cleanup_listing: "readdir_denied (snd (cleanup fs bid checksum)) = readdir_denied fs"
  by (simp add: cleanup_def ReadDir_def remove_stale_listing split: option.split)

lemma cleanup_listed:
  assumes "cleanup fs bid checksum = (None, fs')" and "getBlobDir bid = Some d"
  shows "d \<notin> set (readdir_denied fs)"
  using assms by (auto simp: cleanup_def ReadDir_def split: option.splits if_splits)

lemma os_MkdirAll_file_at: "file_at (snd (os_MkdirAll fs d)) d' m = file_at fs d' m"
  by (auto simp: os_MkdirAll_def file_at_def update_conv' split: option.split)

lemma os_MkdirAll_dir: "os_MkdirAll fs d = (None, fs') \<Longrightarrow> map_of (dirs fs') d \<noteq> None"
  by (auto simp: os_MkdirAll_def update_conv' split: if_splits)

lemma os_MkdirAll_denied: "remove_denied (snd (os_MkdirAll fs d)) = remove_denied fs"
  by (simp add: os_MkdirAll_def)

lemma os_MkdirAll_listing: "readdir_denied (snd (os_MkdirAll fs d)) = readdir_denied fs"
  by (simp add: os_MkdirAll_def)

lemma os_OpenFile_file_at:
  assumes "os_OpenFile fs d n = (None, fs')"
  shows "file_at fs' d' m = (if d' = d \<and> m = n \<and> file_at fs d n = None then Some [] else file_at fs d' m)"
    and "file_at fs' d n \<noteq> None"
  using assms
  by (auto simp: os_OpenFile_def file_at_def update_conv' split: if_splits option.splits)

lemma os_OpenFile_denied: "remove_denied (snd (os_OpenFile fs d n)) = remove_denied fs"
  by (simp add: os_OpenFile_def split: option.split)

lemma os_OpenFile_listing: "readdir_denied (snd (os_OpenFile fs d n)) = readdir_denied fs"
  by (simp add: os_OpenFile_def split: option.split)

lemma write_from_start_file_at:
  "file_at (write_from_start fs d n w) d' m =
     (if d' = d \<and> m = n then map_option (\<lambda>old. w @ drop (length w) old) (file_at fs d n)
      else file_at fs d' m)"
  by (auto simp: write_from_start_def file_at_def update_conv' split: option.split)

lemma write_from_start_denied: "remove_denied (write_from_start fs d n w) = remove_denied fs"
  by (simp add: write_from_start_def split: option.split)

lemma write_from_start_listing: "readdir_denied (write_from_start fs d n w) = readdir_denied fs"
  by (simp add: write_from_start_def split: option.split)

lemma Save_unfold:
  assumes dir: "getBlobDir bid = Some d"
      and c: "cleanup fs bid checksum = (e1, fs1)"
      and mk: "os_MkdirAll fs1 d = (None, fs2)"
      and op: "os_OpenFile fs2 d (getBlobName bid checksum) = (None, fs3)"
      and cp: "copy_loop ((d, getBlobName bid checksum) \<in> set (write_denied fs3)) rc NewWriter = (e4, w)"
  shows "Save fs bid checksum rc = (e4, write_from_start fs3 d (getBlobName bid checksum) (written w))"
  unfolding Save_def using dir c mk op cp by simp

lemma Save_effect:
  assumes ok: "Save fs bid checksum rc = (None, fs')" and dir: "getBlobDir bid = Some d"
  shows "file_at fs' d (getBlobName bid checksum) \<noteq> None"
    and "d \<notin> set (readdir_denied fs) \<Longrightarrow> m \<noteq> getBlobName bid checksum \<Longrightarrow>
         Contains m (getBlobName bid []) \<Longrightarrow>
         (d, m) \<notin> set (remove_denied fs) \<Longrightarrow> file_at fs' d m = None"
    and "remove_denied fs' = remove_denied fs"
    and "readdir_denied fs' = readdir_denied fs"
proof -
  let ?n = "getBlobName bid checksum"
  obtain e1 fs1 where c: "cleanup fs bid checksum = (e1, fs1)" by (cases "cleanup fs bid checksum")
  obtain e2 fs2 where mk: "os_MkdirAll fs1 d = (e2, fs2)" by (cases "os_MkdirAll fs1 d")
  obtain e3 fs3 where op: "os_OpenFile fs2 d ?n = (e3, fs3)" by (cases "os_OpenFile fs2 d ?n")
  obtain e4 w where cp: "copy_loop ((d, ?n) \<in> set (write_denied fs3)) rc NewWriter = (e4, w)"
    by (cases "copy_loop ((d, ?n) \<in> set (write_denied fs3)) rc NewWriter")
  have e2: "e2 = None"
  proof (cases e2)
    case None
    then show ?thesis .
  next
    case (Some e)
    then have "Save fs bid checksum rc = (Some e, fs2)"
      unfolding Save_def using dir c mk by simp
    then show ?thesis using ok by simp
  qed
  have e3: "e3 = None"
  proof (cases e3)
    case None
    then show ?thesis .
  next
    case (Some e)
    then have "Save fs bid checksum rc = (Some e, fs3)"
      unfolding Save_def using dir c mk op e2 by simp
    then show ?thesis using ok by simp
  qed
  have "Save fs bid checksum rc = (e4, write_from_start fs3 d ?n (written w))"
    using Save_unfold [OF dir c _ _ cp, of fs2] mk op e2 e3 by simp
  then have fs': "fs' = write_from_start fs3 d ?n (written w)"
    using ok by simp
  have f1: "file_at fs1 d' k =
     (if d' = d \<and> k \<noteq> ?n \<and> Contains k (getBlobName bid []) \<and> (d, k) \<notin> set (remove_denied fs)
      then None else file_at fs d' k)" if "d \<notin> set (readdir_denied fs)" for d' k
    using cleanup_file_at [OF dir that, of checksum d' k] c by simp
  have f2: "file_at fs2 d' k = file_at fs1 d' k" for d' k
    using os_MkdirAll_file_at [of fs1 d d' k] mk by simp
  have f3: "file_at fs3 d' k = (if d' = d \<and> k = ?n \<and> file_at fs2 d ?n = None then Some [] else file_at fs2 d' k)"
    for d' k
    using os_OpenFile_file_at(1) [of fs2 d ?n fs3 d' k] op e3 by simp
  have f3': "file_at fs3 d ?n \<noteq> None"
    using os_OpenFile_file_at(2) [of fs2 d ?n fs3] op e3 by simp
  show "file_at fs' d ?n \<noteq> None"
    using f3' by (simp add: fs' write_from_start_file_at)
  show "file_at fs' d m = None"
    if "d \<notin> set (readdir_denied fs)" "m \<noteq> ?n" "Contains m (getBlobName bid [])"
       "(d, m) \<notin> set (remove_denied fs)"
  proof -
    have "file_at fs1 d m = None" using that by (simp add: f1)
    then have "file_at fs3 d m = None" using that(2) by (simp add: f3 f2)
    then show ?thesis using that(2) by (simp add: fs' write_from_start_file_at)
  qed
  show "remove_denied fs' = remove_denied fs"
    using cleanup_denied [of fs bid checksum] c os_MkdirAll_denied [of fs1 d] mk
      os_OpenFile_denied [of fs2 d ?n] op
    by (simp add: fs' write_from_start_denied)
  show "readdir_denied fs' = readdir_denied fs"
    using cleanup_listing [of fs bid checksum] c os_MkdirAll_listing [of fs1 d] mk
      os_OpenFile_listing [of fs2 d ?n] op
    by (simp add: fs' write_from_start_listing)
qed

lemma blobs_of_iff:
  assumes "getBlobDir bid = Some d"
  shows "n \<in> set (blobs_of fs bid) \<longleftrightarrow> file_at fs d n \<noteq> None \<and> HasPrefix n (getBlobName bid [])"
proof (cases "map_of (dirs fs) d")
  case None
  then show ?thesis using assms by (simp add: blobs_of_def file_at_def)
next
  case (Some es)
  have "n \<in> set (map fst es) \<longleftrightarrow> file_at fs d n \<noteq> None" using Some by (rule file_at_names)
  then show ?thesis using Some assms by (auto simp: blobs_of_def)
qed

lemma Read_not_found:
  assumes "getBlobDir bid = Some d" and "file_at fs d (getBlobName bid checksum) = None"
  shows "Read fs bid checksum seek l = ([], 0, Some ErrNotExist)"
  using assms by (simp add: Read_def getBlobPath_def os_Open_file_at)

lemma getBlobDir_Some: "2 \<le> length bid \<Longrightarrow> getBlobDir bid = Some (drop (length bid - 2) bid)"
  by (simp add: getBlobDir_def Let_def)

lemma Save_new_blob:
  "Save (fs_with [] []) ''ab'' ''c1'' three_bytes = (None, fs_with [(''ab'', [(''ab==c1'', [])])] [])"
  by (simp add: blob_defs)

lemma Save_next_blob:
  "Save (fs_with [(''ab'', [(''ab==c1'', [])])] []) ''ab'' ''c2'' three_bytes
     = (None, fs_with [(''ab'', [(''ab==c2'', [])])] [])"
  by (simp add: blob_defs)

lemma Save_new_blob_denied:
  "Save (fs_with [] [(''ab'', ''ab==c1'')]) ''ab'' ''c1'' three_bytes
     = (None, fs_with [(''ab'', [(''ab==c1'', [])])] [(''ab'', ''ab==c1'')])"
  by (simp add: blob_defs)

lemma Save_next_blob_denied:
  "Save (fs_with [(''ab'', [(''ab==c1'', [])])] [(''ab'', ''ab==c1'')]) ''ab'' ''c2'' three_bytes
     = (None, fs_with [(''ab'', [(''ab==c1'', []), (''ab==c2'', [])])] [(''ab'', ''ab==c1'')])"
  by (simp add: blob_defs)

lemma Delete_sample:
  "Delete (fs_with [(''ab'', [(''ab==c1'', [7]), (''ab==c2'', [8])])] []) ''ab'' = (None, fs_with [(''ab'', [])] [])"
  by (simp add: blob_defs)

subsection \<open>The claims about the blob store\<close>

text \<open>
  Claim C1, as stated, fails. When the removal of the stale file fails, \<open>cleanup\<close> logs it
  and goes on: both saves succeed, two blob files are left for the id, and reading the
  first one does not fail with not-found. And the file of the second save does not hold
  the data of its reader (see claim C2). The same two files are left when the directory
  cannot be listed: \<open>cleanup\<close> returns the error of \<open>ReadDir\<close> before it removes anything, and
  \<open>Save\<close> drops that error (line 37).
\<close>

theorem two_versions_remain:
  "Save (fs_with [] [(''ab'', ''ab==c1'')]) ''ab'' ''c1'' three_bytes
     = (None, fs_with [(''ab'', [(''ab==c1'', [])])] [(''ab'', ''ab==c1'')])
   \<and> Save (fs_with [(''ab'', [(''ab==c1'', [])])] [(''ab'', ''ab==c1'')]) ''ab'' ''c2'' three_bytes
     = (None, fs_with [(''ab'', [(''ab==c1'', []), (''ab==c2'', [])])] [(''ab'', ''ab==c1'')])
   \<and> blobs_of (fs_with [(''ab'', [(''ab==c1'', []), (''ab==c2'', [])])] [(''ab'', ''ab==c1'')]) ''ab''
     = [''ab==c1'', ''ab==c2'']
   \<and> Read (fs_with [(''ab'', [(''ab==c1'', []), (''ab==c2'', [])])] [(''ab'', ''ab==c1'')]) ''ab'' ''c1'' 0 3
     = ([0, 0, 0], 0, Some ErrEOF)
   \<and> reader_bytes three_bytes = [1, 2, 3]
   \<and> os_Open (fs_with [(''ab'', [(''ab==c1'', []), (''ab==c2'', [])])] [(''ab'', ''ab==c1'')]) ''ab'' ''ab==c2''
     = Inr []
   \<and> Save (fs_unlistable [(''ab'', [])]) ''ab'' ''c1'' three_bytes
     = (None, fs_unlistable [(''ab'', [(''ab==c1'', [])])])
   \<and> Save (fs_unlistable [(''ab'', [(''ab==c1'', [])])]) ''ab'' ''c2'' three_bytes
     = (None, fs_unlistable [(''ab'', [(''ab==c1'', []), (''ab==c2'', [])])])
   \<and> blobs_of (fs_unlistable [(''ab'', [(''ab==c1'', []), (''ab==c2'', [])])]) ''ab''
     = [''ab==c1'', ''ab==c2'']
   \<and> remove_denied (fs_unlistable [(''ab'', [])]) = []"
  apply (simp add: Save_new_blob_denied Save_next_blob_denied)
  apply (simp add: blob_defs numeral_3_eq_3)
  done

text \<open>
  Claim C1, amended. For an id of at least two bytes and two distinct checksums, none of
  them with a path separator: when both saves return success, the directory of the id can
  be listed and no removal of a blob file of the id is refused, the blob files of the id
  are exactly the one named by the
  id and the second checksum, and reading the id with the first checksum fails with
  not-found. What the file holds is not part of the statement.
\<close>

theorem single_current_version:
  assumes len: "2 \<le> length bid"
      and seg: "single_segment bid" "single_segment c1" "single_segment c2"
      and neq: "c1 \<noteq> c2"
      and s1: "Save fs bid c1 rc1 = (None, fs1)"
      and s2: "Save fs1 bid c2 rc2 = (None, fs2)"
      and ls: "drop (length bid - 2) bid \<notin> set (readdir_denied fs)"
      and rm: "\<forall>c. (drop (length bid - 2) bid, getBlobName bid c) \<notin> set (remove_denied fs)"
  shows "set (blobs_of fs2 bid) = {getBlobName bid c2}
       \<and> Read fs2 bid c1 seek l = ([], 0, Some ErrNotExist)"
proof -
  let ?d = "drop (length bid - 2) bid"
  have dir: "getBlobDir bid = Some ?d" using len by (rule getBlobDir_Some)
  have den: "remove_denied fs1 = remove_denied fs" using Save_effect(3) [OF s1 dir] .
  have lst: "?d \<notin> set (readdir_denied fs1)" using Save_effect(4) [OF s1 dir] ls by simp
  have here: "file_at fs2 ?d (getBlobName bid c2) \<noteq> None" using Save_effect(1) [OF s2 dir] .
  have gone: "file_at fs2 ?d (getBlobName bid c) = None" if "c \<noteq> c2" for c
  proof (rule Save_effect(2) [OF s2 dir lst])
    show "getBlobName bid c \<noteq> getBlobName bid c2" using that by (simp add: getBlobName_inject)
    show "Contains (getBlobName bid c) (getBlobName bid [])" by (rule Contains_blob_name)
    show "(?d, getBlobName bid c) \<notin> set (remove_denied fs1)" using rm den by simp
  qed
  have "set (blobs_of fs2 bid) = {getBlobName bid c2}"
  proof (rule set_eqI)
    fix n
    show "n \<in> set (blobs_of fs2 bid) \<longleftrightarrow> n \<in> {getBlobName bid c2}"
    proof
      assume "n \<in> set (blobs_of fs2 bid)"
      then have a: "file_at fs2 ?d n \<noteq> None" and b: "HasPrefix n (getBlobName bid [])"
        by (simp_all add: blobs_of_iff [OF dir])
      from b obtain c where "n = getBlobName bid [] @ c"
        using HasPrefix_iff by blast
      then have n: "n = getBlobName bid c" by (simp add: getBlobName_def)
      have kept: "file_at fs2 ?d (getBlobName bid c) \<noteq> None" using a unfolding n .
      have "c = c2"
      proof (rule ccontr)
        assume "c \<noteq> c2"
        then have "file_at fs2 ?d (getBlobName bid c) = None" by (rule gone)
        with kept show False by (rule notE)
      qed
      then show "n \<in> {getBlobName bid c2}" unfolding n by (rule ssubst) (rule singletonI)
    next
      assume "n \<in> {getBlobName bid c2}"
      then have "n = getBlobName bid c2" by simp
      moreover have "HasPrefix (getBlobName bid c2) (getBlobName bid [])"
        by (simp add: HasPrefix_iff getBlobName_def)
      ultimately show "n \<in> set (blobs_of fs2 bid)" by (simp add: blobs_of_iff [OF dir] here)
    qed
  qed
  moreover have "Read fs2 bid c1 seek l = ([], 0, Some ErrNotExist)"
    using dir gone [OF neq] by (rule Read_not_found)
  ultimately show ?thesis by simp
qed

theorem single_current_version_witness:
  "2 \<le> length ''ab'' \<and> single_segment ''ab'' \<and> single_segment ''c1'' \<and> single_segment ''c2''
   \<and> ''c1'' \<noteq> ''c2''
   \<and> Save (fs_with [] []) ''ab'' ''c1'' three_bytes = (None, fs_with [(''ab'', [(''ab==c1'', [])])] [])
   \<and> Save (fs_with [(''ab'', [(''ab==c1'', [])])] []) ''ab'' ''c2'' three_bytes
        = (None, fs_with [(''ab'', [(''ab==c2'', [])])] [])
   \<and> set (blobs_of (fs_with [(''ab'', [(''ab==c2'', [])])] []) ''ab'') = {''ab==c2''}
   \<and> Read (fs_with [(''ab'', [(''ab==c2'', [])])] []) ''ab'' ''c1'' 0 3 = ([], 0, Some ErrNotExist)"
proof -
  have a: "2 \<le> length ''ab''" "single_segment ''ab''" "single_segment ''c1''" "single_segment ''c2''"
       "''c1'' \<noteq> ''c2''"
    by (simp_all add: single_segment_def)
  have r: "drop (length ''ab'' - 2) ''ab'' \<notin> set (readdir_denied (fs_with [] []))"
      "\<forall>c. (drop (length ''ab'' - 2) ''ab'', getBlobName ''ab'' c) \<notin> set (remove_denied (fs_with [] []))"
    by (simp_all add: fs_with_def)
  from single_current_version [OF a Save_new_blob Save_next_blob r, of 0 3] a Save_new_blob Save_next_blob
  show ?thesis by (simp add: getBlobName_def)
qed

text \<open>
  Claim C2, evaluated on the code. A reader hands out the bytes 1, 2, 3 and then \<open>io.EOF\<close>;
  \<open>Save\<close> returns success and the file is empty: the three bytes stay in the buffer of the
  \<open>bufio.Writer\<close>, which is never flushed. Saved over a file of five bytes at the same
  path, the old five bytes stay as they are.
\<close>

theorem Save_leaves_bytes_unflushed:
  "Save (fs_with [] []) ''ab'' ''c1'' three_bytes = (None, fs_with [(''ab'', [(''ab==c1'', [])])] [])
   \<and> reader_bytes three_bytes = [1, 2, 3]
   \<and> Save (fs_with [(''ab'', [(''ab==c1'', [9, 9, 9, 9, 9])])] []) ''ab'' ''c1'' three_bytes
       = (None, fs_with [(''ab'', [(''ab==c1'', [9, 9, 9, 9, 9])])] [])"
  by (simp add: blob_defs)

text \<open>
  Claim C8, as stated, fails: a blob saved under the checksum \<open>*\<close> is the file that the
  sentinel of \<open>Delete\<close> tells \<open>cleanup\<close> to keep, and a blob whose removal is refused stays as
  well; in both cases \<open>Delete\<close> returns success and the blob can still be read.
\<close>

theorem delete_keeps_some_blobs:
  "Delete (fs_with [(''ab'', [(''ab==*'', [7])])] []) ''ab'' = (None, fs_with [(''ab'', [(''ab==*'', [7])])] [])
   \<and> Read (fs_with [(''ab'', [(''ab==*'', [7])])] []) ''ab'' ''*'' 0 1 = ([7], 1, None)
   \<and> Delete (fs_with [(''ab'', [(''ab==c1'', [7])])] [(''ab'', ''ab==c1'')]) ''ab''
       = (None, fs_with [(''ab'', [(''ab==c1'', [7])])] [(''ab'', ''ab==c1'')])
   \<and> Read (fs_with [(''ab'', [(''ab==c1'', [7])])] [(''ab'', ''ab==c1'')]) ''ab'' ''c1'' 0 1 = ([7], 1, None)"
  by (simp add: blob_defs)

text \<open>
  Claim C8, amended. For an id of at least two bytes and a checksum other than the
  sentinel \<open>*\<close>, neither with a path separator: after a \<open>Delete\<close> of the id that returned
  success, and provided the removal of the blob file of this checksum is not refused,
  reading the id with this checksum fails with not-found, whatever other blob files the
  directory held.
\<close>

theorem delete_then_read_not_found:
  assumes len: "2 \<le> length bid"
      and seg: "single_segment bid" "single_segment checksum"
      and ok: "Delete fs bid = (None, fs')"
      and star: "checksum \<noteq> ''*''"
      and rm: "(drop (length bid - 2) bid, getBlobName bid checksum) \<notin> set (remove_denied fs)"
  shows "Read fs' bid checksum seek l = ([], 0, Some ErrNotExist)"
proof -
  let ?d = "drop (length bid - 2) bid"
  have dir: "getBlobDir bid = Some ?d" using len by (rule getBlobDir_Some)
  have listed: "?d \<notin> set (readdir_denied fs)"
    using ok dir unfolding Delete_def by (rule cleanup_listed)
  have "getBlobName bid checksum \<noteq> getBlobName bid ''*''" using star by (simp add: getBlobName_inject)
  then have "file_at (snd (cleanup fs bid ''*'')) ?d (getBlobName bid checksum) = None"
    using rm Contains_blob_name by (simp add: cleanup_file_at [OF dir listed])
  then have "file_at fs' ?d (getBlobName bid checksum) = None" using ok by (simp add: Delete_def)
  with dir show ?thesis by (rule Read_not_found)
qed



theorem delete_then_read_not_found_witness:
  "2 \<le> length ''ab'' \<and> single_segment ''ab'' \<and> single_segment ''c2''
   \<and> Delete (fs_with [(''ab'', [(''ab==c1'', [7]), (''ab==c2'', [8])])] []) ''ab'' = (None, fs_with [(''ab'', [])] [])
   \<and> ''c2'' \<noteq> ''*''
   \<and> Read (fs_with [(''ab'', [])] []) ''ab'' ''c2'' 0 1 = ([], 0, Some ErrNotExist)"
proof -
  have a: "2 \<le> length ''ab''" "single_segment ''ab''" "single_segment ''c2''"
    by (simp_all add: single_segment_def)
  have b: "''c2'' \<noteq> ''*''" by simp
  have r: "(drop (length ''ab'' - 2) ''ab'', getBlobName ''ab'' ''c2'')
             \<notin> set (remove_denied (fs_with [(''ab'', [(''ab==c1'', [7]), (''ab==c2'', [8])])] []))"
    by (simp add: fs_with_def)
  from delete_then_read_not_found [OF a Delete_sample b r, of 0 1] a b Delete_sample
  show ?thesis by simp
qed

text \<open>
  Claim C10. There are two distinct ids of at least two bytes, the first a suffix of the
  second and so with the same last two bytes, and a file system holding a blob of the
  second id, such that a successful save for the first id removes that blob: \<open>cleanup\<close>
  removes every file whose name contains the first id followed by \<open>==\<close>.
\<close>

theorem cleanup_crosses_ids:
  "\<exists>a b c rc fs.
      a \<noteq> b \<and> 2 \<le> length a \<and> 2 \<le> length b \<and> (\<exists>p. b = p @ a)
    \<and> drop (length a - 2) a = drop (length b - 2) b
    \<and> blobs_of fs b = [getBlobName b c]
    \<and> fst (Save fs a c rc) = None
    \<and> blobs_of (snd (Save fs a c rc)) b = []"
proof -
  have "''ab'' \<noteq> ''xab'' \<and> 2 \<le> length ''ab'' \<and> 2 \<le> length ''xab'' \<and> (\<exists>p. ''xab'' = p @ ''ab'')
    \<and> drop (length ''ab'' - 2) ''ab'' = drop (length ''xab'' - 2) ''xab''
    \<and> blobs_of (fs_with [(''ab'', [(''xab==c1'', [7])])] []) ''xab'' = [getBlobName ''xab'' ''c1'']
    \<and> fst (Save (fs_with [(''ab'', [(''xab==c1'', [7])])] []) ''ab'' ''c1'' three_bytes) = None
    \<and> blobs_of (snd (Save (fs_with [(''ab'', [(''xab==c1'', [7])])] []) ''ab'' ''c1'' three_bytes)) ''xab'' = []"
    by (simp add: blob_defs)
  then show ?thesis by (intro exI)
qed

end
